theory Spec2Isabelle
  imports Complex_Main
begin

section \<open>Python values used by \<open>password_checker.py\<close>\<close>

text \<open>
  A Python \<open>str\<close> is a sequence of Unicode code points, and \<open>len\<close> counts code points.
  A password is therefore a list of code points (natural numbers), not a list of 8-bit
  characters, so that every statement below covers control characters and non-ASCII text.
  \<open>str\<close> turns an ASCII literal into such a list.
\<close>

type_synonym pystr = "nat list"

definition str :: "string \<Rightarrow> pystr" where
  "str s = map of_char s"

text \<open>
  \<open>str.lower\<close> and \<open>str.strip\<close> are Python built-ins driven by the Unicode tables of the
  interpreter. The functions below take them as the parameters \<open>lower\<close> and \<open>strip\<close>, so
  every theorem holds for whichever functions they are. On ASCII strings they are the two
  functions that follow, which the concrete inputs use.
\<close>

definition ascii_lower :: "pystr \<Rightarrow> pystr" where
  "ascii_lower s = map (\<lambda>c. if 65 \<le> c \<and> c \<le> 90 then c + 32 else c) s"

definition ascii_space :: "nat \<Rightarrow> bool" where
  "ascii_space c = ((9 \<le> c \<and> c \<le> 13) \<or> (28 \<le> c \<and> c \<le> 32))"

definition ascii_strip :: "pystr \<Rightarrow> pystr" where
  "ascii_strip s = rev (dropWhile ascii_space (rev (dropWhile ascii_space s)))"

text \<open>Exceptions are values: a computation that may raise returns \<open>py_error + 'a\<close>.\<close>

datatype py_error = ValueError | KeyError

definition bind_err :: "'e + 'a \<Rightarrow> ('a \<Rightarrow> 'e + 'b) \<Rightarrow> 'e + 'b" where
  "bind_err m f = (case m of Inl e \<Rightarrow> Inl e | Inr x \<Rightarrow> f x)"

text \<open>\<open>d[key]\<close> on a dict raises \<open>KeyError\<close> for a missing key.\<close>

definition getitem :: "('k \<rightharpoonup> 'v) \<Rightarrow> 'k \<Rightarrow> py_error + 'v" where
  "getitem d key = (case d key of None \<Rightarrow> Inl KeyError | Some v \<Rightarrow> Inr v)"

text \<open>\<open>math.log2\<close> raises \<open>ValueError\<close> (math domain error) outside the positive numbers.\<close>

definition math_log2 :: "real \<Rightarrow> py_error + real" where
  "math_log2 x = (if x \<le> 0 then Inl ValueError else Inr (log 2 x))"

text \<open>
  \<open>round(x, ndigits)\<close> rounds to the nearest multiple of \<open>10 ** -ndigits\<close>, a tie going to
  the even neighbour. The program computes in double precision; \<open>math_log2\<close>, the product
  and \<open>py_round\<close> compute the same expression over the real numbers. The entropy of the
  model is therefore the exactly rounded product, which the double returned by the
  program need not be: for a password of 2981324 characters over an alphabet of 36 the
  program returns 15413221.48 and the model 15413221.49. What the theorems use of the
  entropy is its comparison with 50 and with 80, which \<open>entropy_thresholds_by_length\<close>
  reduces to the length and the alphabet size; no theorem below is about the number
  returned.
\<close>

definition round_half_even :: "real \<Rightarrow> int" where
  "round_half_even y =
     (let f = \<lfloor>y\<rfloor>; d = y - of_int f
      in if d < 1 / 2 then f else if 1 / 2 < d then f + 1 else if even f then f else f + 1)"

definition py_round :: "real \<Rightarrow> nat \<Rightarrow> real" where
  "py_round x ndigits = of_int (round_half_even (x * 10 ^ ndigits)) / 10 ^ ndigits"

text \<open>\<open>sub in s\<close> on strings: \<open>sub\<close> occurs in \<open>s\<close> as a contiguous block.\<close>

fun contains :: "pystr \<Rightarrow> pystr \<Rightarrow> bool" where
  "contains sub [] = (sub = [])"
| "contains sub (c # s) = (take (length sub) (c # s) = sub \<or> contains sub s)"

subsection \<open>The regular expressions of the program\<close>

text \<open>
  The four character classes \<open>[a-z]\<close>, \<open>[A-Z]\<close>, \<open>[0-9]\<close> and \<open>[^a-zA-Z0-9]\<close>. No flag is
  passed to \<open>re.search\<close>, so a class matches exactly the code points of its ranges, and the
  negated class matches every other code point, the newline included.
\<close>

datatype char_class = Class_a_z | Class_A_Z | Class_0_9 | Class_not_alnum

fun matches :: "char_class \<Rightarrow> nat \<Rightarrow> bool" where
  "matches Class_a_z c = (97 \<le> c \<and> c \<le> 122)"
| "matches Class_A_Z c = (65 \<le> c \<and> c \<le> 90)"
| "matches Class_0_9 c = (48 \<le> c \<and> c \<le> 57)"
| "matches Class_not_alnum c =
     (\<not> (97 \<le> c \<and> c \<le> 122) \<and> \<not> (65 \<le> c \<and> c \<le> 90) \<and> \<not> (48 \<le> c \<and> c \<le> 57))"

definition re_search :: "char_class \<Rightarrow> pystr \<Rightarrow> bool" where
  "re_search pattern s = list_ex (matches pattern) s"

text \<open>
  \<open>re.search(r"(.)\1{2,}", s)\<close>: some position holds a character matched by \<open>.\<close> and
  followed by at least two more copies of it. Without \<open>re.DOTALL\<close> the dot matches every
  character but the newline, code point 10.
\<close>

definition newline :: nat where
  "newline = 10"

fun re_search_repeated :: "pystr \<Rightarrow> bool" where
  "re_search_repeated (a # b # c # s) =
     ((a \<noteq> newline \<and> b = a \<and> c = a) \<or> re_search_repeated (b # c # s))"
| "re_search_repeated s = False"

section \<open>Configuration constants\<close>

definition MIN_LENGTH :: nat where
  "MIN_LENGTH = 8"

definition RECOMMENDED_LENGTH :: nat where
  "RECOMMENDED_LENGTH = 12"

definition ENTROPY_THRESHOLD_WEAK :: real where
  "ENTROPY_THRESHOLD_WEAK = 50"

definition ENTROPY_THRESHOLD_STRONG :: real where
  "ENTROPY_THRESHOLD_STRONG = 80"

definition CHARSET_SIZES :: "string \<rightharpoonup> nat" where
  "CHARSET_SIZES =
     [''lowercase'' \<mapsto> 26, ''uppercase'' \<mapsto> 26, ''digits'' \<mapsto> 10, ''special'' \<mapsto> 32]"

section \<open>PasswordAnalyzer\<close>

record PasswordAnalyzer =
  common_passwords :: "pystr set"

subsection \<open>Loading the common passwords\<close>

text \<open>
  What the file system answers for the path of the common-password file: the path does
  not exist (\<open>Path.exists\<close> is false); or the file is read to its end and yields its lines;
  or some step inside the \<open>try\<close> block raises an exception with the given message (the
  file cannot be opened, or its bytes are not UTF-8).
\<close>

datatype source = Missing | Lines "pystr list" | Failing string

datatype log_record = WARNING string | ERROR string

text \<open>The body of the \<open>try\<close> block: its value or the exception, and what it logged.\<close>

definition load_try :: "(pystr \<Rightarrow> pystr) \<Rightarrow> (pystr \<Rightarrow> pystr) \<Rightarrow> source \<Rightarrow>
    (string + pystr set) \<times> log_record list" where
  "load_try lower strip src =
     (case src of
        Lines ls \<Rightarrow>
          (Inr (set (map (\<lambda>line. lower (strip line)) (filter (\<lambda>line. strip line \<noteq> []) ls))), [])
      | Missing \<Rightarrow>
          (Inr {str ''password'', str ''123456'', str ''qwerty'', str ''admin123'', str ''letmein''},
           [WARNING ''Common passwords file not found. Using minimal set.''])
      | Failing e \<Rightarrow> (Inl e, []))"

text \<open>\<open>_load_common_passwords\<close>: the \<open>except Exception\<close> handler logs an error and returns \<open>set()\<close>.\<close>

definition load_common_passwords :: "(pystr \<Rightarrow> pystr) \<Rightarrow> (pystr \<Rightarrow> pystr) \<Rightarrow> source \<Rightarrow>
    pystr set \<times> log_record list" where
  "load_common_passwords lower strip src =
     (case load_try lower strip src of
        (Inr s, logs) \<Rightarrow> (s, logs)
      | (Inl e, logs) \<Rightarrow> ({}, logs @ [ERROR (''Error loading common passwords: '' @ e)]))"

text \<open>\<open>__init__\<close>: the analyzer built from the source, and the log records of the load.\<close>

definition init :: "(pystr \<Rightarrow> pystr) \<Rightarrow> (pystr \<Rightarrow> pystr) \<Rightarrow> source \<Rightarrow>
    PasswordAnalyzer \<times> log_record list" where
  "init lower strip src =
     (case load_common_passwords lower strip src of
        (s, logs) \<Rightarrow> (\<lparr>common_passwords = s\<rparr>, logs))"

subsection \<open>calculate_entropy\<close>

text \<open>One \<open>if re.search(...): charset_size += CHARSET_SIZES[key]\<close> statement.\<close>

definition add_charset :: "bool \<Rightarrow> string \<Rightarrow> nat \<Rightarrow> py_error + nat" where
  "add_charset found key charset_size =
     (if found then bind_err (getitem CHARSET_SIZES key) (\<lambda>n. Inr (charset_size + n))
      else Inr charset_size)"

text \<open>The value of the local variable \<open>charset_size\<close> after the four statements.\<close>

definition charset_size_of :: "pystr \<Rightarrow> py_error + nat" where
  "charset_size_of password =
     bind_err (add_charset (re_search Class_a_z password) ''lowercase'' 0) (\<lambda>s1.
     bind_err (add_charset (re_search Class_A_Z password) ''uppercase'' s1) (\<lambda>s2.
     bind_err (add_charset (re_search Class_0_9 password) ''digits'' s2) (\<lambda>s3.
     add_charset (re_search Class_not_alnum password) ''special'' s3)))"

definition calculate_entropy :: "pystr \<Rightarrow> py_error + real" where
  "calculate_entropy password =
     bind_err (charset_size_of password) (\<lambda>charset_size.
       if charset_size = 0 then Inr 0
       else bind_err (math_log2 (real charset_size)) (\<lambda>l.
         Inr (py_round (real (length password) * l) 2)))"

subsection \<open>check_patterns\<close>

definition check_patterns :: "(pystr \<Rightarrow> pystr) \<Rightarrow> pystr \<Rightarrow> bool" where
  "check_patterns lower password =
     (if re_search_repeated password then True
      else if list_ex (\<lambda>sub. contains sub (lower password))
                [str ''abc'', str ''123'', str ''qwe'', str ''asdf'']
      then True
      else False)"

subsection \<open>analyze\<close>

text \<open>
  The result dictionary. Its feedback lines are the literal texts of the program, but for
  the line \<open>f"Password entropy: {entropy} bits."\<close>, which prints a float and is kept as the
  constructor \<open>PasswordEntropy\<close> applied to the number.
\<close>

datatype line = Text string | PasswordEntropy real

record analysis =
  strength :: string
  score :: int
  entropy :: real
  feedback :: "line list"

text \<open>
  Each block of \<open>analyze\<close> updates the two local variables \<open>feedback\<close> and \<open>score\<close>, passed
  here as a pair. In the texts, \<open>{MIN_LENGTH}\<close> and \<open>{RECOMMENDED_LENGTH}\<close> are printed as
  8 and 12.
\<close>

definition length_checks :: "pystr \<Rightarrow> line list \<times> int \<Rightarrow> line list \<times> int" where
  "length_checks password st =
     (case st of (fb, sc) \<Rightarrow>
        if length password < MIN_LENGTH
        then (fb @ [Text ''Password too short. Use at least 8 characters.''], sc)
        else if length password \<ge> RECOMMENDED_LENGTH
        then (fb @ [Text ''Excellent! Password length is strong (12+ characters).''], sc + 3)
        else (fb @ [Text ''Good length, but consider 12+ characters.''], sc + 1))"

definition checks :: "(char_class \<times> string \<times> int) list" where
  "checks =
     [(Class_a_z, ''lowercase letters'', 1),
      (Class_A_Z, ''uppercase letters'', 1),
      (Class_0_9, ''numbers'', 1),
      (Class_not_alnum, ''special characters'', 2)]"

fun check_step :: "pystr \<Rightarrow> char_class \<times> string \<times> int \<Rightarrow> line list \<times> int \<Rightarrow> line list \<times> int" where
  "check_step password (pattern, desc, points) (fb, sc) =
     (if re_search pattern password
      then (fb @ [Text (''Contains '' @ desc @ '': Good.'')], sc + points)
      else (fb @ [Text (''Add '' @ desc @ '' for better strength.'')], sc))"

definition character_type_checks :: "pystr \<Rightarrow> line list \<times> int \<Rightarrow> line list \<times> int" where
  "character_type_checks password st = fold (check_step password) checks st"

definition common_and_pattern_checks ::
    "(pystr \<Rightarrow> pystr) \<Rightarrow> 'a PasswordAnalyzer_scheme \<Rightarrow> pystr \<Rightarrow> line list \<times> int \<Rightarrow> line list \<times> int" where
  "common_and_pattern_checks lower self password st =
     (case st of (fb, sc) \<Rightarrow>
        if lower password \<in> common_passwords self
        then (fb @ [Text ''WARNING: Common password detected! Easily guessable.''], 0)
        else if check_patterns lower password
        then (fb @ [Text ''WARNING: Predictable pattern detected (e.g., sequences).''], min sc 2)
        else (fb, sc))"

definition entropy_checks :: "real \<Rightarrow> line list \<times> int \<Rightarrow> line list \<times> int" where
  "entropy_checks ent st =
     (case st of (fb, sc) \<Rightarrow>
        let fb1 = fb @ [PasswordEntropy ent]
        in if ent < ENTROPY_THRESHOLD_WEAK
           then (fb1 @ [Text ''Low entropy; use a longer or more complex password.''], sc)
           else if ent \<ge> ENTROPY_THRESHOLD_STRONG
           then (fb1 @ [Text ''High entropy: Excellent brute-force resistance!''], sc + 2)
           else (fb1, sc))"

definition strength_rating :: "int \<Rightarrow> string" where
  "strength_rating sc = (if sc \<ge> 10 then ''Strong'' else if sc \<ge> 6 then ''Moderate'' else ''Weak'')"

text \<open>
  \<open>analyze\<close> reads the password and the common passwords of the analyzer, and writes
  nothing but its local variables: it is a function of these two inputs (and of
  \<open>lower\<close>). Here that is how the function is defined, not a theorem about it.
\<close>

definition analyze :: "(pystr \<Rightarrow> pystr) \<Rightarrow> 'a PasswordAnalyzer_scheme \<Rightarrow> pystr \<Rightarrow> py_error + analysis" where
  "analyze lower self password =
     (if password = []
      then Inr \<lparr>strength = ''Invalid'', score = 0, entropy = 0,
                feedback = [Text ''Password cannot be empty.'']\<rparr>
      else
        let st1 = length_checks password ([], 0);
            st2 = character_type_checks password st1;
            st3 = common_and_pattern_checks lower self password st2
        in bind_err (calculate_entropy password) (\<lambda>ent.
             case entropy_checks ent st3 of (fb, sc) \<Rightarrow>
               Inr \<lparr>strength = strength_rating sc, score = sc, entropy = ent, feedback = fb\<rparr>))"

section \<open>The vocabulary of the specification\<close>

text \<open>
  The definitions of this section follow the words of the specification, not the code:
  the theorems compare them with what the functions above compute.
\<close>

text \<open>Charset coverage: which of the four character classes occur in the password.\<close>

definition has_lowercase :: "pystr \<Rightarrow> bool" where
  "has_lowercase password = (\<exists>c \<in> set password. 97 \<le> c \<and> c \<le> 122)"

definition has_uppercase :: "pystr \<Rightarrow> bool" where
  "has_uppercase password = (\<exists>c \<in> set password. 65 \<le> c \<and> c \<le> 90)"

definition has_digit :: "pystr \<Rightarrow> bool" where
  "has_digit password = (\<exists>c \<in> set password. 48 \<le> c \<and> c \<le> 57)"

definition has_special :: "pystr \<Rightarrow> bool" where
  "has_special password =
     (\<exists>c \<in> set password. \<not> (97 \<le> c \<and> c \<le> 122) \<and> \<not> (65 \<le> c \<and> c \<le> 90) \<and> \<not> (48 \<le> c \<and> c \<le> 57))"

text \<open>
  The alphabet size: the sum of the fixed per-class sizes (lowercase 26, uppercase 26,
  digits 10, special 32) over the classes present.
\<close>

definition alphabet_size :: "pystr \<Rightarrow> nat" where
  "alphabet_size password =
     (if has_lowercase password then 26 else 0) + (if has_uppercase password then 26 else 0) +
     (if has_digit password then 10 else 0) + (if has_special password then 32 else 0)"

text \<open>
  The entropy estimate: length times the binary logarithm of the alphabet size, rounded to
  two decimal places; 0.0 when no class is present.
\<close>

definition entropy_bits :: "pystr \<Rightarrow> real" where
  "entropy_bits password =
     (if alphabet_size password = 0 then 0
      else py_round (real (length password) * log 2 (real (alphabet_size password))) 2)"

text \<open>The points of the length check and of the character-class coverage.\<close>

definition length_points :: "pystr \<Rightarrow> int" where
  "length_points password = (if length password < 8 then 0 else if 12 \<le> length password then 3 else 1)"

definition class_points :: "pystr \<Rightarrow> int" where
  "class_points password =
     (if has_lowercase password then 1 else 0) + (if has_uppercase password then 1 else 0) +
     (if has_digit password then 1 else 0) + (if has_special password then 2 else 0)"

text \<open>The bonus of the entropy step: two points from 80 bits on.\<close>

definition entropy_bonus :: "pystr \<Rightarrow> int" where
  "entropy_bonus password = (if 80 \<le> entropy_bits password then 2 else 0)"

text \<open>
  The score on entry to the entropy step: reset to 0 for a common password, capped at 2
  for a predictable pattern, and otherwise the points of the first two checks.
\<close>

definition base_score :: "(pystr \<Rightarrow> pystr) \<Rightarrow> 'a PasswordAnalyzer_scheme \<Rightarrow> pystr \<Rightarrow> int" where
  "base_score lower self password =
     (if lower password \<in> common_passwords self then 0
      else if check_patterns lower password
      then min (length_points password + class_points password) 2
      else length_points password + class_points password)"

text \<open>The two warning lines, by which a result shows that a check flagged the password.\<close>

definition common_warning :: line where
  "common_warning = Text ''WARNING: Common password detected! Easily guessable.''"

definition pattern_warning :: line where
  "pattern_warning = Text ''WARNING: Predictable pattern detected (e.g., sequences).''"

definition warning :: "line \<Rightarrow> bool" where
  "warning l = (l = common_warning \<or> l = pattern_warning)"

text \<open>
  The two tables below are not part of the program. They give, for each alphabet size a
  non-empty password can have, the length from which the entropy estimate reaches 80 bits
  and the length from which it reaches 50 bits; \<open>entropy_thresholds_by_length\<close> proves
  that they decide the two comparisons of \<open>analyze\<close>.
\<close>

definition strong_length :: "nat \<Rightarrow> nat" where
  "strong_length a =
     (if a = 10 then 25 else if a = 26 then 18 else if a \<in> {32, 36} then 16
      else if a \<in> {42, 52} then 15 else if a \<in> {58, 62, 68} then 14 else 13)"

definition weak_length :: "nat \<Rightarrow> nat" where
  "weak_length a =
     (if a = 10 then 16 else if a = 26 then 11 else if a \<in> {32, 36, 42} then 10
      else if a \<in> {52, 58, 62, 68} then 9 else 8)"

section \<open>Auxiliary facts\<close>

subsection \<open>Character classes and the alphabet size\<close>

lemma re_search_classes:
  "re_search Class_a_z s = has_lowercase s"
  "re_search Class_A_Z s = has_uppercase s"
  "re_search Class_0_9 s = has_digit s"
  "re_search Class_not_alnum s = has_special s"
  by (simp_all add: re_search_def list_ex_iff has_lowercase_def has_uppercase_def
      has_digit_def has_special_def)

lemma getitem_CHARSET_SIZES:
  "getitem CHARSET_SIZES ''lowercase'' = Inr 26"
  "getitem CHARSET_SIZES ''uppercase'' = Inr 26"
  "getitem CHARSET_SIZES ''digits'' = Inr 10"
  "getitem CHARSET_SIZES ''special'' = Inr 32"
  by (simp_all add: getitem_def CHARSET_SIZES_def)

lemma bind_err_Inr [simp]: "bind_err (Inr x) f = f x"
  by (simp add: bind_err_def)

lemma charset_size_of_eq: "charset_size_of password = Inr (alphabet_size password)"
  by (simp add: charset_size_of_def add_charset_def getitem_CHARSET_SIZES re_search_classes
      alphabet_size_def)

lemma some_class: "c \<in> set password \<Longrightarrow>
    has_lowercase password \<or> has_uppercase password \<or> has_digit password \<or> has_special password"
  unfolding has_lowercase_def has_uppercase_def has_digit_def has_special_def by blast

lemma alphabet_size_pos: "password \<noteq> [] \<Longrightarrow> 10 \<le> alphabet_size password"
proof -
  assume "password \<noteq> []"
  then obtain c where "c \<in> set password" by (cases password) auto
  from some_class [OF this] show ?thesis
    by (auto simp: alphabet_size_def)
qed

lemma alphabet_size_le: "alphabet_size password \<le> 94"
  by (simp add: alphabet_size_def)

lemma alphabet_size_Nil: "alphabet_size [] = 0"
  by (simp add: alphabet_size_def has_lowercase_def has_uppercase_def has_digit_def has_special_def)

subsection \<open>Rounding\<close>

lemma round_half_even_bounds:
  "\<bar>real_of_int (round_half_even y) - y\<bar> \<le> 1 / 2"
  unfolding round_half_even_def Let_def by (auto; linarith)

lemma round_half_even_nonneg: "0 \<le> y \<Longrightarrow> 0 \<le> round_half_even y"
  unfolding round_half_even_def Let_def by (auto; linarith)

lemma py_round_2_error: "\<bar>py_round x 2 - x\<bar> \<le> 1 / 200"
proof -
  have "\<bar>real_of_int (round_half_even (x * 100)) - x * 100\<bar> \<le> 1 / 2"
    by (rule round_half_even_bounds)
  then show ?thesis
    by (simp add: py_round_def field_simps abs_le_iff)
qed

lemma py_round_nonneg: "0 \<le> x \<Longrightarrow> 0 \<le> py_round x ndigits"
  by (simp add: py_round_def round_half_even_nonneg)

lemma py_round_hundredths: "\<exists>k::int. py_round x 2 = real_of_int k / 100"
  by (auto simp: py_round_def)

lemma round_half_even_eq:
  "real_of_int k \<le> y \<Longrightarrow> y < real_of_int k + 1 / 2 \<Longrightarrow> round_half_even y = k"
proof -
  assume a: "real_of_int k \<le> y" "y < real_of_int k + 1 / 2"
  then have "\<lfloor>y\<rfloor> = k" by linarith
  with a show ?thesis by (simp add: round_half_even_def)
qed

lemma round_half_even_ge: "real_of_int k \<le> y \<Longrightarrow> k \<le> round_half_even y"
proof -
  assume "real_of_int k \<le> y"
  then have "k \<le> \<lfloor>y\<rfloor>" by linarith
  then show ?thesis by (simp add: round_half_even_def Let_def)
qed

lemma round_half_even_less: "y < real_of_int k - 1 / 2 \<Longrightarrow> round_half_even y < k"
proof -
  assume a: "y < real_of_int k - 1 / 2"
  then have f: "\<lfloor>y\<rfloor> < k" by linarith
  show ?thesis
  proof (cases "\<lfloor>y\<rfloor> = k - 1")
    case True
    with a have "y - real_of_int \<lfloor>y\<rfloor> < 1 / 2" by simp
    with True show ?thesis by (simp add: round_half_even_def)
  next
    case False
    with f have "\<lfloor>y\<rfloor> + 1 < k" by simp
    then show ?thesis by (simp add: round_half_even_def Let_def)
  qed
qed

lemma round_half_even_up:
  "real_of_int k - 1 / 2 < y \<Longrightarrow> y \<le> real_of_int k \<Longrightarrow> round_half_even y = k"
proof -
  assume a: "real_of_int k - 1 / 2 < y" "y \<le> real_of_int k"
  show ?thesis
  proof (cases "y = real_of_int k")
    case True
    then show ?thesis by (simp add: round_half_even_def)
  next
    case False
    with a have "\<lfloor>y\<rfloor> = k - 1" by linarith
    with a show ?thesis by (simp add: round_half_even_def)
  qed
qed

subsection \<open>The entropy estimate\<close>

lemma calculate_entropy_eq: "calculate_entropy password = Inr (entropy_bits password)"
  by (simp add: calculate_entropy_def charset_size_of_eq math_log2_def entropy_bits_def)

lemma log2_lower:
  assumes "2 ^ a \<le> (c::nat) ^ q"
  shows "real a \<le> real q * log 2 (real c)"
proof -
  have "real a \<le> log 2 (real (c ^ q))"
    using assms by (rule le_log2_of_power)
  also have "log 2 (real (c ^ q)) = real q * log 2 (real c)"
    by (simp add: log_nat_power)
  finally show ?thesis .
qed

lemma log2_upper:
  assumes "(c::nat) ^ q < 2 ^ a" and "0 < c"
  shows "real q * log 2 (real c) < real a"
proof -
  have "log 2 (real (c ^ q)) < real a"
    using assms by (intro log2_of_power_less) simp_all
  moreover have "log 2 (real (c ^ q)) = real q * log 2 (real c)"
    by (simp add: log_nat_power)
  ultimately show ?thesis by simp
qed

lemma entropy_bits_nonneg: "0 \<le> entropy_bits password"
proof (cases "alphabet_size password = 0")
  case True
  then show ?thesis by (simp add: entropy_bits_def)
next
  case False
  then have "1 \<le> real (alphabet_size password)" by simp
  then have "0 \<le> log 2 (real (alphabet_size password))" by simp
  then show ?thesis
    using False by (simp add: entropy_bits_def py_round_nonneg)
qed

lemma entropy_bits_error:
  "\<bar>entropy_bits password - real (length password) * log 2 (real (alphabet_size password))\<bar> \<le> 1 / 200"
proof (cases "alphabet_size password = 0")
  case True
  then have "password = []" using alphabet_size_pos [of password] by fastforce
  with True show ?thesis by (simp add: entropy_bits_def)
next
  case False
  then show ?thesis
    using py_round_2_error [of "real (length password) * log 2 (real (alphabet_size password))"]
    by (simp add: entropy_bits_def)
qed

text \<open>Coarse bounds that settle the two thresholds on concrete inputs.\<close>

lemma entropy_bits_ge:
  assumes "2 ^ k \<le> alphabet_size password"
  shows "real k * real (length password) - 1 / 200 \<le> entropy_bits password"
proof -
  have "real k \<le> real 1 * log 2 (real (alphabet_size password))"
    using assms by (intro log2_lower) simp
  then have "real (length password) * real k \<le>
      real (length password) * log 2 (real (alphabet_size password))"
    by (intro mult_left_mono) simp_all
  then have "real k * real (length password) \<le>
      real (length password) * log 2 (real (alphabet_size password))"
    by (simp add: mult.commute)
  with entropy_bits_error [of password] show ?thesis by linarith
qed

lemma entropy_bits_le: "entropy_bits password \<le> 7 * real (length password) + 1 / 200"
proof (cases "alphabet_size password = 0")
  case True
  then show ?thesis by (simp add: entropy_bits_def)
next
  case False
  have "alphabet_size password ^ 1 < 2 ^ 7"
    using alphabet_size_le [of password] by simp
  then have "real 1 * log 2 (real (alphabet_size password)) < real 7"
    using False by (intro log2_upper) simp_all
  then have "real (length password) * log 2 (real (alphabet_size password)) \<le>
      real (length password) * 7"
    by (intro mult_left_mono) simp_all
  with entropy_bits_error [of password] show ?thesis by linarith
qed

lemma entropy_abcdefgh: "entropy_bits (str ''abcdefgh'') = 376 / 10"
proof -
  have size: "alphabet_size (str ''abcdefgh'') = 26"
    by (simp add: alphabet_size_def has_lowercase_def has_uppercase_def has_digit_def
        has_special_def str_def)
  have lo: "real 47 \<le> real 10 * log 2 (real 26)"
    by (rule log2_lower) simp
  have hi: "real 167 * log 2 (real 26) < real 785"
    by (rule log2_upper) simp_all
  have "round_half_even (8 * log 2 26 * 100) = 3760"
    using lo hi by (intro round_half_even_eq) simp_all
  moreover have "length (str ''abcdefgh'') = 8"
    by (simp add: str_def)
  ultimately show ?thesis
    by (simp add: entropy_bits_def size py_round_def)
qed

lemma entropy_Abc123: "entropy_bits (str ''Abc123!@'') = 5244 / 100"
proof -
  have size: "alphabet_size (str ''Abc123!@'') = 94"
    by (simp add: alphabet_size_def has_lowercase_def has_uppercase_def has_digit_def
        has_special_def str_def)
  have lo: "real 662 \<le> real 101 * log 2 (real 94)"
    by (rule log2_lower) simp
  have hi: "real 119 * log 2 (real 94) < real 780"
    by (rule log2_upper) simp_all
  have "round_half_even (8 * log 2 94 * 100) = 5244"
    using lo hi by (intro round_half_even_up) simp_all
  moreover have "length (str ''Abc123!@'') = 8"
    by (simp add: str_def)
  ultimately show ?thesis
    by (simp add: entropy_bits_def size py_round_def)
qed

text \<open>
  The thresholds by length. For an alphabet of 32 characters the unrounded product is an
  integer; for every other alphabet size it stays away from 50 and from 80 by more than
  the rounding changes it, so the two comparisons depend on the length and the alphabet
  size alone.
\<close>

lemma threshold_by_length:
  fixes L :: real
  assumes lo: "real a \<le> real q * L" and hi: "real q' * L \<le> real a'"
    and q: "0 < q" "0 < q'"
    and N: "T * q \<le> Suc M * a" and M: "200 * (M * a') < (200 * T - 1) * q'" and T: "0 < T"
  shows "real T \<le> py_round (real n * L) 2 \<longleftrightarrow> Suc M \<le> n"
proof
  assume n: "Suc M \<le> n"
  have "0 \<le> real q * L"
    using lo of_nat_0_le_iff [of a] by linarith
  with q(1) have L0: "0 \<le> L"
    by (simp add: zero_le_mult_iff)
  have "real T * real q \<le> real (Suc M) * real a"
    using N by (metis of_nat_mult of_nat_le_iff)
  also have "\<dots> \<le> real (Suc M) * (real q * L)"
    using lo by (intro mult_left_mono) simp_all
  also have "\<dots> \<le> real n * (real q * L)"
    using n L0 by (intro mult_right_mono) simp_all
  finally have "real T * real q \<le> (real n * L) * real q"
    by (simp add: mult_ac)
  with q(1) have x: "real T \<le> real n * L" by simp
  then have "real_of_int (int T * 100) \<le> real n * L * 100" by simp
  then have "int T * 100 \<le> round_half_even (real n * L * 100)"
    by (rule round_half_even_ge)
  then have "real_of_int (int T * 100) \<le> real_of_int (round_half_even (real n * L * 100))"
    by (simp only: of_int_le_iff)
  then show "real T \<le> py_round (real n * L) 2"
    by (simp add: py_round_def field_simps)
next
  assume r: "real T \<le> py_round (real n * L) 2"
  show "Suc M \<le> n"
  proof (rule ccontr)
    assume "\<not> Suc M \<le> n"
    then have n: "n \<le> M" by simp
    have "0 \<le> real q * L"
      using lo of_nat_0_le_iff [of a] by linarith
    with q(1) have L0: "0 \<le> L"
      by (simp add: zero_le_mult_iff)
    have "real n * (L * real q') \<le> real M * (L * real q')"
      using n L0 by (intro mult_right_mono) simp_all
    then have "(real n * L) * real q' \<le> real M * (real q' * L)"
      by (simp add: mult_ac)
    also have "\<dots> \<le> real M * real a'"
      using hi by (intro mult_left_mono) simp_all
    finally have "200 * ((real n * L) * real q') \<le> real (200 * (M * a'))"
      by simp
    also have "\<dots> < real ((200 * T - 1) * q')"
      using M by (simp only: of_nat_less_iff)
    also have "\<dots> = (200 * real T - 1) * real q'"
      using T by (simp add: of_nat_diff)
    finally have "200 * (real n * L) < 200 * real T - 1"
      using q(2) by simp
    then have "real n * L * 100 < real_of_int (int T * 100) - 1 / 2" by simp
    then have "round_half_even (real n * L * 100) < int T * 100"
      by (rule round_half_even_less)
    then have "real_of_int (round_half_even (real n * L * 100)) < real_of_int (int T * 100)"
      by (simp only: of_int_less_iff)
    then have "py_round (real n * L) 2 < real T"
      by (simp add: py_round_def field_simps)
    with r show False by simp
  qed
qed

lemma thresholds_10:
  "(80 \<le> py_round (real n * log 2 (real 10)) 2 \<longleftrightarrow> 25 \<le> n) \<and>
   (50 \<le> py_round (real n * log 2 (real 10)) 2 \<longleftrightarrow> 16 \<le> n)"
proof -
  have lo: "real 13 \<le> real 4 * log 2 (real 10)"
    by (rule log2_lower) simp
  have hi: "real 31 * log 2 (real 10) \<le> real 103"
    using log2_upper [of 10 31 103] by simp
  show ?thesis
    using threshold_by_length [OF lo hi, of 80 24 n]
      threshold_by_length [OF lo hi, of 50 15 n]
    by simp
qed

lemma thresholds_26:
  "(80 \<le> py_round (real n * log 2 (real 26)) 2 \<longleftrightarrow> 18 \<le> n) \<and>
   (50 \<le> py_round (real n * log 2 (real 26)) 2 \<longleftrightarrow> 11 \<le> n)"
proof -
  have lo: "real 14 \<le> real 3 * log 2 (real 26)"
    by (rule log2_lower) simp
  have hi: "real 27 * log 2 (real 26) \<le> real 127"
    using log2_upper [of 26 27 127] by simp
  show ?thesis
    using threshold_by_length [OF lo hi, of 80 17 n]
      threshold_by_length [OF lo hi, of 50 10 n]
    by simp
qed

lemma thresholds_32:
  "(80 \<le> py_round (real n * log 2 (real 32)) 2 \<longleftrightarrow> 16 \<le> n) \<and>
   (50 \<le> py_round (real n * log 2 (real 32)) 2 \<longleftrightarrow> 10 \<le> n)"
proof -
  have lo: "real 5 \<le> real 1 * log 2 (real 32)"
    by (rule log2_lower) simp
  have hi: "real 4 * log 2 (real 32) \<le> real 21"
    using log2_upper [of 32 4 21] by simp
  show ?thesis
    using threshold_by_length [OF lo hi, of 80 15 n]
      threshold_by_length [OF lo hi, of 50 9 n]
    by simp
qed

lemma thresholds_36:
  "(80 \<le> py_round (real n * log 2 (real 36)) 2 \<longleftrightarrow> 16 \<le> n) \<and>
   (50 \<le> py_round (real n * log 2 (real 36)) 2 \<longleftrightarrow> 10 \<le> n)"
proof -
  have lo: "real 5 \<le> real 1 * log 2 (real 36)"
    by (rule log2_lower) simp
  have hi: "real 4 * log 2 (real 36) \<le> real 21"
    using log2_upper [of 36 4 21] by simp
  show ?thesis
    using threshold_by_length [OF lo hi, of 80 15 n]
      threshold_by_length [OF lo hi, of 50 9 n]
    by simp
qed

lemma thresholds_42:
  "(80 \<le> py_round (real n * log 2 (real 42)) 2 \<longleftrightarrow> 15 \<le> n) \<and>
   (50 \<le> py_round (real n * log 2 (real 42)) 2 \<longleftrightarrow> 10 \<le> n)"
proof -
  have lo: "real 16 \<le> real 3 * log 2 (real 42)"
    by (rule log2_lower) simp
  have hi: "real 2 * log 2 (real 42) \<le> real 11"
    using log2_upper [of 42 2 11] by simp
  show ?thesis
    using threshold_by_length [OF lo hi, of 80 14 n]
      threshold_by_length [OF lo hi, of 50 9 n]
    by simp
qed

lemma thresholds_52:
  "(80 \<le> py_round (real n * log 2 (real 52)) 2 \<longleftrightarrow> 15 \<le> n) \<and>
   (50 \<le> py_round (real n * log 2 (real 52)) 2 \<longleftrightarrow> 9 \<le> n)"
proof -
  have lo: "real 17 \<le> real 3 * log 2 (real 52)"
    by (rule log2_lower) simp
  have hi: "real 17 * log 2 (real 52) \<le> real 97"
    using log2_upper [of 52 17 97] by simp
  show ?thesis
    using threshold_by_length [OF lo hi, of 80 14 n]
      threshold_by_length [OF lo hi, of 50 8 n]
    by simp
qed

lemma thresholds_58:
  "(80 \<le> py_round (real n * log 2 (real 58)) 2 \<longleftrightarrow> 14 \<le> n) \<and>
   (50 \<le> py_round (real n * log 2 (real 58)) 2 \<longleftrightarrow> 9 \<le> n)"
proof -
  have lo: "real 23 \<le> real 4 * log 2 (real 58)"
    by (rule log2_lower) simp
  have hi: "real 1 * log 2 (real 58) \<le> real 6"
    using log2_upper [of 58 1 6] by simp
  show ?thesis
    using threshold_by_length [OF lo hi, of 80 13 n]
      threshold_by_length [OF lo hi, of 50 8 n]
    by simp
qed

lemma thresholds_62:
  "(80 \<le> py_round (real n * log 2 (real 62)) 2 \<longleftrightarrow> 14 \<le> n) \<and>
   (50 \<le> py_round (real n * log 2 (real 62)) 2 \<longleftrightarrow> 9 \<le> n)"
proof -
  have lo: "real 23 \<le> real 4 * log 2 (real 62)"
    by (rule log2_lower) simp
  have hi: "real 1 * log 2 (real 62) \<le> real 6"
    using log2_upper [of 62 1 6] by simp
  show ?thesis
    using threshold_by_length [OF lo hi, of 80 13 n]
      threshold_by_length [OF lo hi, of 50 8 n]
    by simp
qed

lemma thresholds_68:
  "(80 \<le> py_round (real n * log 2 (real 68)) 2 \<longleftrightarrow> 14 \<le> n) \<and>
   (50 \<le> py_round (real n * log 2 (real 68)) 2 \<longleftrightarrow> 9 \<le> n)"
proof -
  have lo: "real 6 \<le> real 1 * log 2 (real 68)"
    by (rule log2_lower) simp
  have hi: "real 7 * log 2 (real 68) \<le> real 43"
    using log2_upper [of 68 7 43] by simp
  show ?thesis
    using threshold_by_length [OF lo hi, of 80 13 n]
      threshold_by_length [OF lo hi, of 50 8 n]
    by simp
qed

lemma thresholds_84:
  "(80 \<le> py_round (real n * log 2 (real 84)) 2 \<longleftrightarrow> 13 \<le> n) \<and>
   (50 \<le> py_round (real n * log 2 (real 84)) 2 \<longleftrightarrow> 8 \<le> n)"
proof -
  have lo: "real 19 \<le> real 3 * log 2 (real 84)"
    by (rule log2_lower) simp
  have hi: "real 2 * log 2 (real 84) \<le> real 13"
    using log2_upper [of 84 2 13] by simp
  show ?thesis
    using threshold_by_length [OF lo hi, of 80 12 n]
      threshold_by_length [OF lo hi, of 50 7 n]
    by simp
qed

lemma thresholds_94:
  "(80 \<le> py_round (real n * log 2 (real 94)) 2 \<longleftrightarrow> 13 \<le> n) \<and>
   (50 \<le> py_round (real n * log 2 (real 94)) 2 \<longleftrightarrow> 8 \<le> n)"
proof -
  have lo: "real 13 \<le> real 2 * log 2 (real 94)"
    by (rule log2_lower) simp
  have hi: "real 5 * log 2 (real 94) \<le> real 33"
    using log2_upper [of 94 5 33] by simp
  show ?thesis
    using threshold_by_length [OF lo hi, of 80 12 n]
      threshold_by_length [OF lo hi, of 50 7 n]
    by simp
qed

lemma alphabet_size_cases:
  assumes "password \<noteq> []"
  shows "alphabet_size password \<in> {10, 26, 32, 36, 42, 52, 58, 62, 68, 84, 94}"
proof -
  from assms obtain c where "c \<in> set password" by (cases password) auto
  from some_class [OF this] show ?thesis
    by (auto simp: alphabet_size_def)
qed

lemma entropy_thresholds_by_length:
  assumes "password \<noteq> []"
  shows "(80 \<le> entropy_bits password \<longleftrightarrow>
            strong_length (alphabet_size password) \<le> length password) \<and>
         (entropy_bits password < 50 \<longleftrightarrow>
            length password < weak_length (alphabet_size password))"
proof -
  have e: "entropy_bits password =
      py_round (real (length password) * log 2 (real (alphabet_size password))) 2"
    using alphabet_size_pos [OF assms] by (simp add: entropy_bits_def)
  from alphabet_size_cases [OF assms]
  consider "alphabet_size password = 10" | "alphabet_size password = 26"
    | "alphabet_size password = 32" | "alphabet_size password = 36"
    | "alphabet_size password = 42" | "alphabet_size password = 52"
    | "alphabet_size password = 58" | "alphabet_size password = 62"
    | "alphabet_size password = 68" | "alphabet_size password = 84"
    | "alphabet_size password = 94"
    by auto
  then show ?thesis
  proof cases
    case 1
    with thresholds_10 [of "length password"] show ?thesis
      unfolding e by (simp add: strong_length_def weak_length_def not_le [symmetric])
  next
    case 2
    with thresholds_26 [of "length password"] show ?thesis
      unfolding e by (simp add: strong_length_def weak_length_def not_le [symmetric])
  next
    case 3
    with thresholds_32 [of "length password"] show ?thesis
      unfolding e by (simp add: strong_length_def weak_length_def not_le [symmetric])
  next
    case 4
    with thresholds_36 [of "length password"] show ?thesis
      unfolding e by (simp add: strong_length_def weak_length_def not_le [symmetric])
  next
    case 5
    with thresholds_42 [of "length password"] show ?thesis
      unfolding e by (simp add: strong_length_def weak_length_def not_le [symmetric])
  next
    case 6
    with thresholds_52 [of "length password"] show ?thesis
      unfolding e by (simp add: strong_length_def weak_length_def not_le [symmetric])
  next
    case 7
    with thresholds_58 [of "length password"] show ?thesis
      unfolding e by (simp add: strong_length_def weak_length_def not_le [symmetric])
  next
    case 8
    with thresholds_62 [of "length password"] show ?thesis
      unfolding e by (simp add: strong_length_def weak_length_def not_le [symmetric])
  next
    case 9
    with thresholds_68 [of "length password"] show ?thesis
      unfolding e by (simp add: strong_length_def weak_length_def not_le [symmetric])
  next
    case 10
    with thresholds_84 [of "length password"] show ?thesis
      unfolding e by (simp add: strong_length_def weak_length_def not_le [symmetric])
  next
    case 11
    with thresholds_94 [of "length password"] show ?thesis
      unfolding e by (simp add: strong_length_def weak_length_def not_le [symmetric])
  qed
qed

subsection \<open>The score\<close>

lemma points_Nil: "length_points [] = 0" "class_points [] = 0"
  by (simp_all add: length_points_def class_points_def has_lowercase_def has_uppercase_def
      has_digit_def has_special_def)

lemma length_points_le: "length_points password \<le> 3"
  by (simp add: length_points_def)

lemma class_points_le: "class_points password \<le> 5"
  by (simp add: class_points_def)

lemma length_points_nonneg: "0 \<le> length_points password"
  by (simp add: length_points_def)

lemma class_points_nonneg: "0 \<le> class_points password"
  by (simp add: class_points_def)

lemma base_score_le: "base_score lower self password \<le> length_points password + class_points password"
  using length_points_nonneg [of password] class_points_nonneg [of password]
  by (simp add: base_score_def)

lemma entropy_bonus_le: "entropy_bonus password \<le> 2"
  by (simp add: entropy_bonus_def)

lemma entropy_checks_eq:
  "entropy_checks ent (fb, sc) =
     (fb @ [PasswordEntropy ent] @
        (if ent < 50 then [Text ''Low entropy; use a longer or more complex password.'']
         else if 80 \<le> ent then [Text ''High entropy: Excellent brute-force resistance!'']
         else []),
      sc + (if 80 \<le> ent then 2 else 0))"
  by (simp add: entropy_checks_def ENTROPY_THRESHOLD_WEAK_def ENTROPY_THRESHOLD_STRONG_def)

lemma length_checks_snd: "snd (length_checks password (fb, sc)) = sc + length_points password"
  by (simp add: length_checks_def length_points_def MIN_LENGTH_def RECOMMENDED_LENGTH_def)

lemma character_type_checks_snd:
  "snd (character_type_checks password (fb, sc)) = sc + class_points password"
  by (simp add: character_type_checks_def checks_def re_search_classes class_points_def)

lemma common_and_pattern_checks_snd:
  "snd (common_and_pattern_checks lower self password st) =
     (if lower password \<in> common_passwords self then 0
      else if check_patterns lower password then min (snd st) 2 else snd st)"
  by (cases st) (simp add: common_and_pattern_checks_def)

lemma analyze_nonempty:
  assumes "password \<noteq> []"
  shows "\<exists>fb. analyze lower self password =
     Inr \<lparr>strength = strength_rating (base_score lower self password + entropy_bonus password),
          score = base_score lower self password + entropy_bonus password,
          entropy = entropy_bits password, feedback = fb\<rparr>"
proof -
  obtain fb1 sc1 where st1: "length_checks password ([], 0) = (fb1, sc1)"
    by (cases "length_checks password ([], 0)")
  obtain fb2 sc2 where st2: "character_type_checks password (fb1, sc1) = (fb2, sc2)"
    by (cases "character_type_checks password (fb1, sc1)")
  obtain fb3 sc3 where st3: "common_and_pattern_checks lower self password (fb2, sc2) = (fb3, sc3)"
    by (cases "common_and_pattern_checks lower self password (fb2, sc2)")
  have sc1: "sc1 = length_points password"
    using length_checks_snd [of password "[]" 0] st1 by simp
  have sc2: "sc2 = length_points password + class_points password"
    using character_type_checks_snd [of password fb1 sc1] st2 sc1 by simp
  have sc3: "sc3 = base_score lower self password"
    using common_and_pattern_checks_snd [of lower self password "(fb2, sc2)"] st3 sc2
    by (simp add: base_score_def)
  show ?thesis
    using assms
    by (simp add: analyze_def st1 st2 st3 calculate_entropy_eq entropy_checks_eq sc3
        entropy_bonus_def)
qed

lemma analyze_total_aux: "\<exists>r. analyze lower self password = Inr r"
proof (cases "password = []")
  case True
  then show ?thesis by (simp add: analyze_def)
next
  case False
  from analyze_nonempty [OF False, of lower self] show ?thesis by blast
qed

lemma score_le_10:
  assumes "analyze lower self password = Inr r"
  shows "score r \<le> 10"
proof (cases "password = []")
  case True
  with assms show ?thesis by (auto simp: analyze_def)
next
  case False
  from analyze_nonempty [OF False, of lower self] assms
  have "score r = base_score lower self password + entropy_bonus password" by force
  with base_score_le [of lower self password] length_points_le [of password]
    class_points_le [of password] entropy_bonus_le [of password]
  show ?thesis by linarith
qed

lemma init_Missing:
  "common_passwords (fst (init lower strip Missing)) =
     {str ''password'', str ''123456'', str ''qwerty'', str ''admin123'', str ''letmein''}"
  by (simp add: init_def load_common_passwords_def load_try_def)

subsection \<open>Substrings and repeated characters\<close>

lemma contains_iff: "contains sub s \<longleftrightarrow> (\<exists>ps ss. s = ps @ sub @ ss)"
proof (induction s)
  case Nil
  then show ?case by auto
next
  case (Cons c s)
  show ?case
  proof
    assume "contains sub (c # s)"
    then consider "take (length sub) (c # s) = sub" | "contains sub s" by auto
    then show "\<exists>ps ss. c # s = ps @ sub @ ss"
    proof cases
      case 1
      then have "c # s = [] @ sub @ drop (length sub) (c # s)"
        by (metis append_Nil append_take_drop_id)
      then show ?thesis by blast
    next
      case 2
      with Cons.IH obtain ps ss where "s = ps @ sub @ ss" by blast
      then have "c # s = (c # ps) @ sub @ ss" by simp
      then show ?thesis by blast
    qed
  next
    assume "\<exists>ps ss. c # s = ps @ sub @ ss"
    then obtain ps ss where eq: "c # s = ps @ sub @ ss" by blast
    show "contains sub (c # s)"
    proof (cases ps)
      case Nil
      with eq have "take (length sub) (c # s) = sub" by simp
      then show ?thesis by simp
    next
      case (Cons p ps')
      with eq have "s = ps' @ sub @ ss" by simp
      with Cons.IH have "contains sub s" by blast
      then show ?thesis by simp
    qed
  qed
qed

lemma re_search_repeated_iff:
  "re_search_repeated s \<longleftrightarrow> (\<exists>ps c ss. c \<noteq> newline \<and> s = ps @ [c, c, c] @ ss)"
proof (induction s rule: re_search_repeated.induct)
  case (1 a b c s)
  show ?case
  proof
    assume "re_search_repeated (a # b # c # s)"
    then consider "a \<noteq> newline \<and> b = a \<and> c = a" | "re_search_repeated (b # c # s)" by auto
    then show "\<exists>ps d ss. d \<noteq> newline \<and> a # b # c # s = ps @ [d, d, d] @ ss"
    proof cases
      case 1
      then have "a \<noteq> newline \<and> a # b # c # s = [] @ [a, a, a] @ s" by simp
      then show ?thesis by blast
    next
      case 2
      with "1.IH" obtain ps d ss where "d \<noteq> newline" "b # c # s = ps @ [d, d, d] @ ss"
        by blast
      then have "d \<noteq> newline \<and> a # b # c # s = (a # ps) @ [d, d, d] @ ss" by simp
      then show ?thesis by blast
    qed
  next
    assume "\<exists>ps d ss. d \<noteq> newline \<and> a # b # c # s = ps @ [d, d, d] @ ss"
    then obtain ps d ss where d: "d \<noteq> newline" and eq: "a # b # c # s = ps @ [d, d, d] @ ss"
      by blast
    show "re_search_repeated (a # b # c # s)"
    proof (cases ps)
      case Nil
      with eq d show ?thesis by simp
    next
      case (Cons p ps')
      with eq have "b # c # s = ps' @ [d, d, d] @ ss" by simp
      with d "1.IH" have "re_search_repeated (b # c # s)" by blast
      then show ?thesis by simp
    qed
  qed
qed (auto simp: Cons_eq_append_conv)

lemma check_patterns_iff:
  "check_patterns lower password \<longleftrightarrow>
     (\<exists>ps c ss. c \<noteq> newline \<and> password = ps @ [c, c, c] @ ss) \<or>
     (\<exists>sub \<in> {str ''abc'', str ''123'', str ''qwe'', str ''asdf''}.
        \<exists>ps ss. lower password = ps @ sub @ ss)"
  by (simp add: check_patterns_def re_search_repeated_iff contains_iff)

text \<open>A run of newlines is not a repeated character for the regular expression.\<close>

lemma re_search_repeated_newlines: "\<not> re_search_repeated (replicate n newline)"
proof
  assume "re_search_repeated (replicate n newline)"
  then obtain ps c ss where c: "c \<noteq> newline" and eq: "replicate n newline = ps @ [c, c, c] @ ss"
    unfolding re_search_repeated_iff by blast
  have "c \<in> set (ps @ [c, c, c] @ ss)" by simp
  then have "c \<in> set (replicate n newline)" by (simp only: eq)
  then have "c = newline" by (simp split: if_splits)
  with c show False by simp
qed

subsection \<open>The warning lines of the feedback\<close>

lemma length_checks_warning:
  "filter warning (fst (length_checks password (fb, sc))) = filter warning fb"
  by (simp add: length_checks_def warning_def common_warning_def pattern_warning_def)

lemma check_step_warning:
  "p \<in> set checks \<Longrightarrow>
   filter warning (fst (check_step password p st)) = filter warning (fst st)"
  by (cases st)
    (auto simp: checks_def warning_def common_warning_def pattern_warning_def)

lemma character_type_checks_warning:
  "filter warning (fst (character_type_checks password st)) = filter warning (fst st)"
proof -
  have "set ps \<subseteq> set checks \<Longrightarrow>
      filter warning (fst (fold (check_step password) ps st)) = filter warning (fst st)" for ps
    by (induction ps arbitrary: st) (simp_all add: check_step_warning)
  then show ?thesis by (simp add: character_type_checks_def)
qed

lemma common_and_pattern_checks_warning:
  "filter warning (fst (common_and_pattern_checks lower self password st)) =
     filter warning (fst st) @
       (if lower password \<in> common_passwords self then [common_warning]
        else if check_patterns lower password then [pattern_warning] else [])"
  by (cases st)
    (simp add: common_and_pattern_checks_def warning_def common_warning_def pattern_warning_def)

lemma entropy_checks_warning:
  "filter warning (fst (entropy_checks ent st)) = filter warning (fst st)"
  by (cases st)
    (simp add: entropy_checks_eq warning_def common_warning_def pattern_warning_def)

lemma analyze_warnings:
  assumes "password \<noteq> []" and "analyze lower self password = Inr r"
  shows "filter warning (feedback r) =
     (if lower password \<in> common_passwords self then [common_warning]
      else if check_patterns lower password then [pattern_warning] else [])"
proof -
  let ?st3 = "common_and_pattern_checks lower self password
      (character_type_checks password (length_checks password ([], 0)))"
  have "feedback r = fst (entropy_checks (entropy_bits password) ?st3)"
    using assms
    by (auto simp: analyze_def calculate_entropy_eq Let_def split: prod.splits)
  then show ?thesis
    by (simp add: entropy_checks_warning common_and_pattern_checks_warning
        character_type_checks_warning length_checks_warning)
qed

lemma warning_mem: "warning l \<Longrightarrow> l \<in> set fb \<longleftrightarrow> l \<in> set (filter warning fb)"
  by simp

lemma warning_facts:
  "warning common_warning" "warning pattern_warning" "common_warning \<noteq> pattern_warning"
  by (simp_all add: warning_def common_warning_def pattern_warning_def)

lemma analyze_flags:
  assumes "password \<noteq> []" and "analyze lower self password = Inr r"
  shows "common_warning \<in> set (feedback r) \<longleftrightarrow> lower password \<in> common_passwords self"
    and "pattern_warning \<in> set (feedback r) \<longleftrightarrow>
        lower password \<notin> common_passwords self \<and> check_patterns lower password"
proof -
  have f: "filter warning (feedback r) =
       (if lower password \<in> common_passwords self then [common_warning]
        else if check_patterns lower password then [pattern_warning] else [])"
    using assms by (rule analyze_warnings)
  show "common_warning \<in> set (feedback r) \<longleftrightarrow> lower password \<in> common_passwords self"
    unfolding warning_mem [OF warning_facts(1), of "feedback r"] f
    using warning_facts(3) by simp
  show "pattern_warning \<in> set (feedback r) \<longleftrightarrow>
        lower password \<notin> common_passwords self \<and> check_patterns lower password"
    unfolding warning_mem [OF warning_facts(2), of "feedback r"] f
    using warning_facts(3) by auto
qed

section \<open>The claims\<close>

subsection \<open>Common passwords\<close>

text \<open>
  Claim C1, as the code has it. For every password whose lower-casing is a member of the
  common passwords, \<open>analyze\<close> returns a result whose score is 0 when the entropy is
  below 80 bits and 2 from 80 bits on: the common-password check resets the score to 0,
  so no length or character-class point survives, and the entropy bonus is added after
  the reset.
\<close>

theorem common_password_score:
  assumes "lower password \<in> common_passwords self"
  shows "\<exists>r. analyze lower self password = Inr r \<and>
           score r = (if ENTROPY_THRESHOLD_STRONG \<le> entropy r then 2 else 0)"
proof (cases "password = []")
  case True
  then show ?thesis by (simp add: analyze_def ENTROPY_THRESHOLD_STRONG_def)
next
  case False
  from analyze_nonempty [OF False, of lower self] obtain r
    where "analyze lower self password = Inr r"
      and "score r = base_score lower self password + entropy_bonus password"
      and "entropy r = entropy_bits password"
    by force
  with assms show ?thesis
    by (simp add: base_score_def entropy_bonus_def ENTROPY_THRESHOLD_STRONG_def)
qed

theorem common_password_score_witness:
  "ascii_lower (str ''Password'') \<in> common_passwords (fst (init ascii_lower ascii_strip Missing)) \<and>
   (\<exists>r. analyze ascii_lower (fst (init ascii_lower ascii_strip Missing)) (str ''Password'') = Inr r \<and>
        score r = (if ENTROPY_THRESHOLD_STRONG \<le> entropy r then 2 else 0))"
proof -
  have h: "ascii_lower (str ''Password'') \<in>
      common_passwords (fst (init ascii_lower ascii_strip Missing))"
    by (simp add: init_Missing str_def ascii_lower_def)
  from common_password_score [where lower = ascii_lower and password = "str ''Password''"
      and self = "fst (init ascii_lower ascii_strip Missing)", OF h] h
  show ?thesis by blast
qed

text \<open>
  The claim as it was stated (score 0 whatever the entropy bonus) fails for a common
  password of 25 lowercase letters: its entropy is above 80 bits and its score is 2.
\<close>

theorem common_password_score_counterexample:
  "ascii_lower (str ''correcthorsebatterystaple'') \<in>
     common_passwords \<lparr>common_passwords = {str ''correcthorsebatterystaple''}\<rparr> \<and>
   \<not> isl (analyze ascii_lower \<lparr>common_passwords = {str ''correcthorsebatterystaple''}\<rparr>
     (str ''correcthorsebatterystaple'')) \<and>
   score (projr (analyze ascii_lower \<lparr>common_passwords = {str ''correcthorsebatterystaple''}\<rparr>
     (str ''correcthorsebatterystaple''))) = 2"
proof -
  let ?pw = "str ''correcthorsebatterystaple''"
  let ?A = "\<lparr>common_passwords = {?pw}\<rparr>"
  have mem: "ascii_lower ?pw \<in> common_passwords ?A"
    by (simp add: str_def ascii_lower_def)
  have ne: "?pw \<noteq> []" by (simp add: str_def)
  have "alphabet_size ?pw = 26"
    by (simp add: alphabet_size_def has_lowercase_def has_uppercase_def has_digit_def
        has_special_def str_def)
  then have "2 ^ 4 \<le> alphabet_size ?pw" by simp
  from entropy_bits_ge [OF this] have "80 \<le> entropy_bits ?pw"
    by (simp add: str_def)
  then have bonus: "entropy_bonus ?pw = 2" by (simp add: entropy_bonus_def)
  have base: "base_score ascii_lower ?A ?pw = 0"
    using mem by (simp add: base_score_def)
  from analyze_nonempty [OF ne, of ascii_lower ?A] obtain fb where
    "analyze ascii_lower ?A ?pw = Inr \<lparr>strength = strength_rating (base_score ascii_lower ?A ?pw + entropy_bonus ?pw),
          score = base_score ascii_lower ?A ?pw + entropy_bonus ?pw,
          entropy = entropy_bits ?pw, feedback = fb\<rparr>" ..
  then show ?thesis using mem by (simp add: base bonus)
qed

subsection \<open>Predictable patterns\<close>

text \<open>
  Claim C2, as the code has it. For every password that is not a common password and
  that contains a run of three copies of one character other than the newline, or whose
  lower-casing contains one of "abc", "123", "qwe", "asdf", \<open>analyze\<close> returns a
  result whose score is the points of the length and class checks capped at 2, plus the
  entropy bonus of 2 from 80 bits on; the score is at most 4.
\<close>

theorem pattern_score_cap:
  assumes "lower password \<notin> common_passwords self"
    and "(\<exists>ps c ss. c \<noteq> newline \<and> password = ps @ [c, c, c] @ ss) \<or>
         (\<exists>sub \<in> {str ''abc'', str ''123'', str ''qwe'', str ''asdf''}.
            \<exists>ps ss. lower password = ps @ sub @ ss)"
  shows "\<exists>r. analyze lower self password = Inr r \<and>
           score r = min (length_points password + class_points password) 2 +
                     (if ENTROPY_THRESHOLD_STRONG \<le> entropy r then 2 else 0) \<and>
           score r \<le> 4"
proof (cases "password = []")
  case True
  then show ?thesis by (simp add: analyze_def ENTROPY_THRESHOLD_STRONG_def points_Nil)
next
  case False
  from assms(2) have pat: "check_patterns lower password"
    by (simp only: check_patterns_iff)
  from analyze_nonempty [OF False, of lower self] obtain r
    where "analyze lower self password = Inr r"
      and "score r = base_score lower self password + entropy_bonus password"
      and "entropy r = entropy_bits password"
    by force
  with assms(1) pat show ?thesis
    by (auto simp: base_score_def entropy_bonus_def ENTROPY_THRESHOLD_STRONG_def)
qed

theorem pattern_score_cap_witness:
  "ascii_lower (str ''aaaaaaaa'') \<notin> common_passwords (fst (init ascii_lower ascii_strip Missing)) \<and>
   97 \<noteq> newline \<and> str ''aaaaaaaa'' = [] @ [97, 97, 97] @ str ''aaaaa'' \<and>
   (\<exists>r. analyze ascii_lower (fst (init ascii_lower ascii_strip Missing)) (str ''aaaaaaaa'') = Inr r \<and>
        score r = min (length_points (str ''aaaaaaaa'') + class_points (str ''aaaaaaaa'')) 2 +
                  (if ENTROPY_THRESHOLD_STRONG \<le> entropy r then 2 else 0) \<and>
        score r \<le> 4)"
proof -
  let ?D = "fst (init ascii_lower ascii_strip Missing)"
  have h1: "ascii_lower (str ''aaaaaaaa'') \<notin> common_passwords ?D"
    by (simp add: init_Missing str_def ascii_lower_def)
  have h2: "97 \<noteq> newline \<and> str ''aaaaaaaa'' = [] @ [97, 97, 97] @ str ''aaaaa''"
    by (simp add: str_def newline_def)
  then have h3: "(\<exists>ps c ss. c \<noteq> newline \<and> str ''aaaaaaaa'' = ps @ [c, c, c] @ ss) \<or>
         (\<exists>sub \<in> {str ''abc'', str ''123'', str ''qwe'', str ''asdf''}.
            \<exists>ps ss. ascii_lower (str ''aaaaaaaa'') = ps @ sub @ ss)"
    by blast
  from pattern_score_cap [where lower = ascii_lower and password = "str ''aaaaaaaa''"
      and self = ?D, OF h1 h3] h1 h2
  show ?thesis by blast
qed

text \<open>
  The claim as it was stated (a final score of at most 2) fails for a password of 16
  characters of all four classes that starts with "abc": its score is 4.
\<close>

theorem pattern_score_cap_counterexample:
  "ascii_lower (str ''abcDEF!7ghiJKL?9'') \<notin>
     common_passwords (fst (init ascii_lower ascii_strip Missing)) \<and>
   take 3 (ascii_lower (str ''abcDEF!7ghiJKL?9'')) = str ''abc'' \<and>
   \<not> isl (analyze ascii_lower (fst (init ascii_lower ascii_strip Missing))
     (str ''abcDEF!7ghiJKL?9'')) \<and>
   score (projr (analyze ascii_lower (fst (init ascii_lower ascii_strip Missing))
     (str ''abcDEF!7ghiJKL?9''))) = 4"
proof -
  let ?pw = "str ''abcDEF!7ghiJKL?9''"
  let ?D = "fst (init ascii_lower ascii_strip Missing)"
  have notin: "ascii_lower ?pw \<notin> common_passwords ?D"
    by (simp add: init_Missing str_def ascii_lower_def)
  have sub: "take 3 (ascii_lower ?pw) = str ''abc''"
    by (simp add: str_def ascii_lower_def)
  have pat: "check_patterns ascii_lower ?pw"
    by (simp add: check_patterns_def str_def ascii_lower_def)
  have ne: "?pw \<noteq> []" by (simp add: str_def)
  have "alphabet_size ?pw = 94"
    by (simp add: alphabet_size_def has_lowercase_def has_uppercase_def has_digit_def
        has_special_def str_def)
  then have "2 ^ 6 \<le> alphabet_size ?pw" by simp
  from entropy_bits_ge [OF this] have "80 \<le> entropy_bits ?pw"
    by (simp add: str_def)
  then have bonus: "entropy_bonus ?pw = 2" by (simp add: entropy_bonus_def)
  have "length_points ?pw = 3"
    by (simp add: length_points_def str_def)
  moreover have "class_points ?pw = 5"
    by (simp add: class_points_def has_lowercase_def has_uppercase_def has_digit_def
        has_special_def str_def)
  ultimately have base: "base_score ascii_lower ?D ?pw = 2"
    using notin pat by (simp add: base_score_def)
  from analyze_nonempty [OF ne, of ascii_lower ?D] obtain fb where
    "analyze ascii_lower ?D ?pw = Inr \<lparr>strength = strength_rating (base_score ascii_lower ?D ?pw + entropy_bonus ?pw),
          score = base_score ascii_lower ?D ?pw + entropy_bonus ?pw,
          entropy = entropy_bits ?pw, feedback = fb\<rparr>" ..
  then show ?thesis using notin sub by (simp add: base bonus)
qed

subsection \<open>Loading the common passwords\<close>

text \<open>
  Claim C3, as the code has it. When the file of common passwords does not exist, the
  load returns the built-in set "password", "123456", "qwerty", "admin123", "letmein" and
  logs one warning. When reading it raises an exception, the load returns the empty set
  and logs one error. In both cases the load returns to its caller: the result is a set
  and the log records, never an exception.
\<close>

theorem load_common_passwords_fallback:
  "load_common_passwords lower strip Missing =
     ({str ''password'', str ''123456'', str ''qwerty'', str ''admin123'', str ''letmein''},
      [WARNING ''Common passwords file not found. Using minimal set.'']) \<and>
   load_common_passwords lower strip (Failing e) =
     ({}, [ERROR (''Error loading common passwords: '' @ e)])"
  by (simp add: load_common_passwords_def load_try_def)

theorem load_common_passwords_fallback_witness:
  "load_common_passwords ascii_lower ascii_strip Missing =
     ({str ''password'', str ''123456'', str ''qwerty'', str ''admin123'', str ''letmein''},
      [WARNING ''Common passwords file not found. Using minimal set.'']) \<and>
   load_common_passwords ascii_lower ascii_strip (Failing ''[Errno 13] Permission denied'') =
     ({}, [ERROR ''Error loading common passwords: [Errno 13] Permission denied''])"
  using load_common_passwords_fallback [of ascii_lower ascii_strip "''[Errno 13] Permission denied''"]
  by simp

text \<open>
  The claim as it was stated (the built-in set and only a warning, also for an unreadable
  file) fails when opening the file raises: "password" is not in the set returned, and
  the log record is an error.
\<close>

theorem load_common_passwords_fallback_counterexample:
  "str ''password'' \<notin>
     fst (load_common_passwords ascii_lower ascii_strip (Failing ''[Errno 13] Permission denied'')) \<and>
   snd (load_common_passwords ascii_lower ascii_strip (Failing ''[Errno 13] Permission denied'')) =
     [ERROR ''Error loading common passwords: [Errno 13] Permission denied'']"
  by (simp add: load_common_passwords_def load_try_def)

subsection \<open>The maximum score\<close>

text \<open>
  Claim C4, as the code has it. The score of every result is at most 10, and at most the
  sum of the length points (at most 3), the class points (at most 1 + 1 + 1 + 2) and the
  entropy bonus (at most 2), whatever the common-password and pattern checks do; the
  score 10 is reached, by a password of 16 characters of all four classes.
\<close>

theorem score_maximum:
  "(\<exists>r. analyze lower self password = Inr r \<and> score r \<le> 10 \<and>
        score r \<le> length_points password + class_points password + entropy_bonus password) \<and>
   length_points password \<le> 3 \<and> class_points password \<le> 1 + 1 + 1 + 2 \<and>
   entropy_bonus password \<le> 2 \<and>
   (\<exists>r. analyze ascii_lower (fst (init ascii_lower ascii_strip Missing))
          (str ''Tr0ub4dor&Zebra!'') = Inr r \<and> score r = 10)"
proof -
  have bound: "\<exists>r. analyze lower self password = Inr r \<and> score r \<le> 10 \<and>
        score r \<le> length_points password + class_points password + entropy_bonus password"
  proof (cases "password = []")
    case True
    then show ?thesis
      by (simp add: analyze_def points_Nil entropy_bonus_def entropy_bits_def alphabet_size_Nil)
  next
    case False
    from analyze_nonempty [OF False, of lower self] obtain r
      where r: "analyze lower self password = Inr r"
        and "score r = base_score lower self password + entropy_bonus password"
      by force
    with base_score_le [of lower self password] score_le_10 [OF r]
    show ?thesis by auto
  qed
  let ?pw = "str ''Tr0ub4dor&Zebra!''"
  let ?D = "fst (init ascii_lower ascii_strip Missing)"
  have notin: "ascii_lower ?pw \<notin> common_passwords ?D"
    by (simp add: init_Missing str_def ascii_lower_def)
  have pat: "\<not> check_patterns ascii_lower ?pw"
    by (simp add: check_patterns_def str_def ascii_lower_def newline_def)
  have ne: "?pw \<noteq> []" by (simp add: str_def)
  have "alphabet_size ?pw = 94"
    by (simp add: alphabet_size_def has_lowercase_def has_uppercase_def has_digit_def
        has_special_def str_def)
  then have "2 ^ 6 \<le> alphabet_size ?pw" by simp
  from entropy_bits_ge [OF this] have "80 \<le> entropy_bits ?pw"
    by (simp add: str_def)
  then have bonus: "entropy_bonus ?pw = 2" by (simp add: entropy_bonus_def)
  have "length_points ?pw = 3"
    by (simp add: length_points_def str_def)
  moreover have "class_points ?pw = 5"
    by (simp add: class_points_def has_lowercase_def has_uppercase_def has_digit_def
        has_special_def str_def)
  ultimately have base: "base_score ascii_lower ?D ?pw = 8"
    using notin pat by (simp add: base_score_def)
  from analyze_nonempty [OF ne, of ascii_lower ?D]
  have attained: "\<exists>r. analyze ascii_lower ?D ?pw = Inr r \<and> score r = 10"
    by (auto simp: base bonus)
  from bound attained length_points_le [of password] class_points_le [of password]
    entropy_bonus_le [of password]
  show ?thesis by simp
qed

theorem score_maximum_witness:
  "(\<exists>r. analyze ascii_lower (fst (init ascii_lower ascii_strip Missing)) (str ''password'') = Inr r \<and>
        score r \<le> 10) \<and>
   (\<exists>r. analyze ascii_lower (fst (init ascii_lower ascii_strip Missing))
          (str ''Tr0ub4dor&Zebra!'') = Inr r \<and> score r = 10)"
  using score_maximum [of ascii_lower "fst (init ascii_lower ascii_strip Missing)" "str ''password''"]
  by blast

text \<open>
  The claim as it was stated (a maximum of 12) fails: no input has the score 12, since
  3 + (1 + 1 + 1 + 2) + 2 is 10.
\<close>

theorem score_maximum_counterexample:
  "\<not> (\<exists>lower (self :: PasswordAnalyzer) password r.
        analyze lower self password = Inr r \<and> score r = 12)"
proof
  assume "\<exists>lower (self :: PasswordAnalyzer) password r.
        analyze lower self password = Inr r \<and> score r = 12"
  then obtain lower and self :: PasswordAnalyzer and password r
    where "analyze lower self password = Inr r" and "score r = 12"
    by blast
  with score_le_10 [of lower self password r] show False by simp
qed

subsection \<open>The empty password\<close>

text \<open>
  Claim C5. For the empty password \<open>analyze\<close> returns exactly the result with strength
  Invalid, score 0, entropy 0.0 and the single feedback line "Password cannot be empty.";
  the result does not depend on the analyzer's common passwords, since no check runs.
\<close>

theorem analyze_empty:
  "analyze lower self [] =
     Inr \<lparr>strength = ''Invalid'', score = 0, entropy = 0,
          feedback = [Text ''Password cannot be empty.'']\<rparr>"
  by (simp add: analyze_def)

theorem analyze_empty_witness:
  "analyze ascii_lower \<lparr>common_passwords = {str ''password''}\<rparr> [] =
     Inr \<lparr>strength = ''Invalid'', score = 0, entropy = 0,
          feedback = [Text ''Password cannot be empty.'']\<rparr>"
  by (rule analyze_empty)

subsection \<open>The strength label\<close>

text \<open>
  Claim C6, as the code has it. For every non-empty password the strength label is
  determined by the final score alone: Strong exactly when the score is at least 10,
  Moderate exactly when it is at least 6 and below 10, Weak exactly when it is below 6;
  so the score 6 gives Moderate, 10 gives Strong and 5 gives Weak.
\<close>

theorem strength_by_score:
  assumes "password \<noteq> []"
  shows "\<exists>r. analyze lower self password = Inr r \<and>
           (strength r = ''Strong'' \<longleftrightarrow> 10 \<le> score r) \<and>
           (strength r = ''Moderate'' \<longleftrightarrow> 6 \<le> score r \<and> score r < 10) \<and>
           (strength r = ''Weak'' \<longleftrightarrow> score r < 6) \<and>
           strength r = strength_rating (score r) \<and>
           strength_rating 6 = ''Moderate'' \<and> strength_rating 10 = ''Strong'' \<and>
           strength_rating 5 = ''Weak''"
proof -
  from analyze_nonempty [OF assms, of lower self] obtain r
    where "analyze lower self password = Inr r" and "strength r = strength_rating (score r)"
    by force
  then show ?thesis
    by (auto simp: strength_rating_def)
qed

theorem strength_by_score_witness:
  "str ''Xy7!mnop'' \<noteq> [] \<and>
   (\<exists>r. analyze ascii_lower (fst (init ascii_lower ascii_strip Missing)) (str ''Xy7!mnop'') = Inr r \<and>
        score r = 6 \<and> strength r = ''Moderate'')"
proof -
  let ?pw = "str ''Xy7!mnop''"
  let ?D = "fst (init ascii_lower ascii_strip Missing)"
  have ne: "?pw \<noteq> []" by (simp add: str_def)
  have notin: "ascii_lower ?pw \<notin> common_passwords ?D"
    by (simp add: init_Missing str_def ascii_lower_def)
  have pat: "\<not> check_patterns ascii_lower ?pw"
    by (simp add: check_patterns_def str_def ascii_lower_def newline_def)
  have "entropy_bits ?pw < 80"
    using entropy_bits_le [of ?pw] by (simp add: str_def)
  then have bonus: "entropy_bonus ?pw = 0" by (simp add: entropy_bonus_def)
  have "length_points ?pw = 1"
    by (simp add: length_points_def str_def)
  moreover have "class_points ?pw = 5"
    by (simp add: class_points_def has_lowercase_def has_uppercase_def has_digit_def
        has_special_def str_def)
  ultimately have base: "base_score ascii_lower ?D ?pw = 6"
    using notin pat by (simp add: base_score_def)
  from analyze_nonempty [OF ne, of ascii_lower ?D]
  have six: "\<exists>fb. analyze ascii_lower ?D ?pw =
      Inr \<lparr>strength = strength_rating 6, score = 6, entropy = entropy_bits ?pw, feedback = fb\<rparr>"
    by (simp add: base bonus)
  from strength_by_score [OF ne, of ascii_lower ?D] six ne show ?thesis
    by auto
qed

text \<open>
  The claim as it was stated (for every input) fails for the empty password: its score 0
  is below 6 and its label is Invalid, not Weak.
\<close>

theorem strength_by_score_counterexample:
  "\<not> isl (analyze ascii_lower (fst (init ascii_lower ascii_strip Missing)) []) \<and>
   score (projr (analyze ascii_lower (fst (init ascii_lower ascii_strip Missing)) [])) < 6 \<and>
   strength (projr (analyze ascii_lower (fst (init ascii_lower ascii_strip Missing)) [])) \<noteq> ''Weak''"
  by (simp add: analyze_def)

subsection \<open>Flagged passwords are weak\<close>

text \<open>
  Claim C8. A result carries the common-password warning exactly when the password is
  not empty and its lower-casing is a common password, and the pattern warning exactly
  when the password is not empty, is not a common password and has a predictable pattern.
  For every password flagged by either check the strength label is Weak: the reset leaves
  at most 0 + 2 points and the cap at most 2 + 2, both below 6.
\<close>

theorem flagged_is_weak:
  "\<exists>r. analyze lower self password = Inr r \<and>
        (common_warning \<in> set (feedback r) \<longleftrightarrow>
           password \<noteq> [] \<and> lower password \<in> common_passwords self) \<and>
        (pattern_warning \<in> set (feedback r) \<longleftrightarrow>
           password \<noteq> [] \<and> lower password \<notin> common_passwords self \<and>
           check_patterns lower password) \<and>
        (common_warning \<in> set (feedback r) \<longrightarrow> score r \<le> 0 + 2 \<and> strength r = ''Weak'') \<and>
        (pattern_warning \<in> set (feedback r) \<longrightarrow> score r \<le> 2 + 2 \<and> strength r = ''Weak'')"
proof (cases "password = []")
  case True
  then show ?thesis
    by (simp add: analyze_def common_warning_def pattern_warning_def)
next
  case False
  from analyze_nonempty [OF False, of lower self] obtain r
    where r: "analyze lower self password = Inr r"
      and sc: "score r = base_score lower self password + entropy_bonus password"
      and st: "strength r = strength_rating (score r)"
    by force
  note c = analyze_flags(1) [OF False r] and p = analyze_flags(2) [OF False r]
  have weak: "strength r = ''Weak''" if "score r \<le> 4"
    using that st by (simp add: strength_rating_def)
  have c2: "score r \<le> 0 + 2 \<and> strength r = ''Weak''" if "common_warning \<in> set (feedback r)"
  proof -
    from that c have "lower password \<in> common_passwords self" by simp
    then have "score r \<le> 2"
      using sc entropy_bonus_le [of password] by (simp add: base_score_def)
    with weak show ?thesis by simp
  qed
  have p2: "score r \<le> 2 + 2 \<and> strength r = ''Weak''" if "pattern_warning \<in> set (feedback r)"
  proof -
    from that p have "lower password \<notin> common_passwords self" "check_patterns lower password"
      by simp_all
    then have "score r \<le> 4"
      using sc entropy_bonus_le [of password] by (simp add: base_score_def)
    with weak show ?thesis by simp
  qed
  from r c p c2 p2 False show ?thesis by blast
qed

theorem flagged_is_weak_witness:
  "common_warning \<in> set (feedback (projr
      (analyze ascii_lower (fst (init ascii_lower ascii_strip Missing)) (str ''PASSWORD'')))) \<and>
   strength (projr
      (analyze ascii_lower (fst (init ascii_lower ascii_strip Missing)) (str ''PASSWORD''))) = ''Weak''"
proof -
  let ?pw = "str ''PASSWORD''"
  let ?D = "fst (init ascii_lower ascii_strip Missing)"
  have "?pw \<noteq> [] \<and> ascii_lower ?pw \<in> common_passwords ?D"
    by (simp add: init_Missing str_def ascii_lower_def)
  with flagged_is_weak [of ascii_lower ?D ?pw] show ?thesis
    by auto
qed

subsection \<open>Totality\<close>

text \<open>
  Claim C10. For every string, of any code points and any length, \<open>analyze\<close> returns a
  result and raises no exception: the dictionary lookups find their keys, and
  \<open>math.log2\<close> is only called on a positive alphabet size.
\<close>

theorem analyze_total: "\<exists>r. analyze lower self password = Inr r"
proof (cases "password = []")
  case True
  then show ?thesis by (simp add: analyze_def)
next
  case False
  from analyze_nonempty [OF False, of lower self] show ?thesis by blast
qed

theorem analyze_total_witness:
  "\<exists>r. analyze ascii_lower (fst (init ascii_lower ascii_strip Missing))
         ([0, 7, 10, 233, 955, 128512] @ replicate 100000 97) = Inr r"
  by (rule analyze_total)

end
